theory Spec2Isabelle
  imports Complex_Main
begin

section \<open>Errors\<close>

text \<open>
  The C++ code has no exceptions of its own.  What can go wrong is a failed
  \<^verbatim>\<open>LVK_ASSERT\<close> (a precondition violation) and undefined behaviour of the language or
  the standard library (an index outside of a vector, \<^verbatim>\<open>back()\<close> of an empty vector, a
  signed overflow, a float that does not fit its integer target).  Both are results of
  the model, so that every operation is a function into \<open>error + 'a\<close>.  A floating-point
  division by zero is defined, but its result is an infinity or a NaN and no number:
  the model returns \<open>NotFinite\<close> there.
\<close>

datatype error = AssertionFailure | UndefinedBehaviour | NotFinite

section \<open>SpatialMap\<close>

subsection \<open>Data\<close>

text \<open>
  \<^verbatim>\<open>cv::Size\<close> and \<^verbatim>\<open>cv::Rect\<close> hold \<^verbatim>\<open>int\<close>s, \<^verbatim>\<open>cv::Size_<float>\<close> holds floats.  A float
  is a rational number.  The floats of the map are quotients: of the sizes of the region
  and of the grid, and of a coordinate and a key size.  They are taken exactly, without the
  rounding to 24 bits; what the code uses of them is their integer part.  (The doubles
  of the filter's search loop, where the rounding decides how often the loop runs, are
  rounded as the hardware rounds them.)  A \<^verbatim>\<open>spatial_key\<close> is a \<^verbatim>\<open>cv::Point_<size_t>\<close>: the
  pair \<open>(x, y)\<close> of a column and a row.
\<close>

record Size =
  size_width :: int
  size_height :: int

record Rect =
  rect_x :: int
  rect_y :: int
  rect_width :: int
  rect_height :: int

record SizeF =
  key_width :: rat
  key_height :: rat

type_synonym spatial_key = "nat \<times> nat"

record 'a SpatialMap =
  m_MapResolution :: Size
  m_InputRegion :: Rect
  m_KeySize :: SizeF
  m_Map :: "nat list"
  m_Data :: "(spatial_key \<times> 'a) list"

text \<open>
  The sentinel of an empty data link is declared in \<^verbatim>\<open>SpatialMap.hpp\<close>, which is not
  among the sources: it is taken to be the largest \<^verbatim>\<open>size_t\<close>.
\<close>

definition m_EmptySymbol :: nat where
  "m_EmptySymbol = 2 ^ 64 - 1"

text \<open>The conversion of an \<^verbatim>\<open>int\<close> to \<^verbatim>\<open>size_t\<close>, as a comparison of the two does.\<close>

definition size_t_of_int :: "int \<Rightarrow> nat" where
  "size_t_of_int i = nat (i mod 2 ^ 64)"

text \<open>
  \<^verbatim>\<open>static_cast<int>\<close> and \<^verbatim>\<open>static_cast<size_t>\<close> of a floating-point value truncate
  toward zero; the behaviour is undefined when the truncated value does not fit.
\<close>

definition truncate_toward_zero :: "rat \<Rightarrow> int" where
  "truncate_toward_zero q = (if 0 \<le> q then \<lfloor>q\<rfloor> else \<lceil>q\<rceil>)"

definition static_cast_int :: "rat \<Rightarrow> error + int" where
  "static_cast_int q =
     (let i = truncate_toward_zero q
      in if - (2 ^ 31) \<le> i \<and> i < 2 ^ 31 then Inr i else Inl UndefinedBehaviour)"

definition static_cast_size_t :: "rat \<Rightarrow> error + nat" where
  "static_cast_size_t q =
     (let i = truncate_toward_zero q
      in if 0 \<le> i \<and> i < 2 ^ 64 then Inr (nat i) else Inl UndefinedBehaviour)"

text \<open>
  \<^verbatim>\<open>index_2d\<close> and \<^verbatim>\<open>between\<close> come from \<^verbatim>\<open>Math/Math.hpp\<close>, which is not among the
  sources: the row-major index of a cell, computed in \<^verbatim>\<open>size_t\<close>, and the test of a
  closed interval.
\<close>

definition index_2d :: "nat \<Rightarrow> nat \<Rightarrow> nat \<Rightarrow> nat" where
  "index_2d col row row_length = (row * row_length + col) mod 2 ^ 64"

definition between :: "int \<Rightarrow> int \<Rightarrow> int \<Rightarrow> bool" where
  "between v lo hi = (lo \<le> v \<and> v \<le> hi)"

subsection \<open>Keys and data links\<close>

definition resolve_spatial_key :: "spatial_key \<Rightarrow> Size \<Rightarrow> nat" where
  "resolve_spatial_key key resolution =
     index_2d (fst key) (snd key) (size_t_of_int (size_width resolution))"

definition is_key_valid :: "'a SpatialMap \<Rightarrow> spatial_key \<Rightarrow> bool" where
  "is_key_valid m key =
     (fst key < size_t_of_int (size_width (m_MapResolution m)) \<and>
      snd key < size_t_of_int (size_height (m_MapResolution m)))"

definition fetch_data_link :: "'a SpatialMap \<Rightarrow> spatial_key \<Rightarrow> error + nat" where
  "fetch_data_link m key =
     (let i = resolve_spatial_key key (m_MapResolution m)
      in if i < length (m_Map m) then Inr (m_Map m ! i) else Inl UndefinedBehaviour)"

text \<open>A write through the reference that \<^verbatim>\<open>fetch_data_link\<close> returned.\<close>

definition store_data_link :: "'a SpatialMap \<Rightarrow> spatial_key \<Rightarrow> nat \<Rightarrow> 'a SpatialMap" where
  "store_data_link m key link =
     m\<lparr>m_Map := (m_Map m)[resolve_spatial_key key (m_MapResolution m) := link]\<rparr>"

definition is_data_link_empty :: "nat \<Rightarrow> bool" where
  "is_data_link_empty link = (link = m_EmptySymbol)"

definition clear_data_link :: "'a SpatialMap \<Rightarrow> spatial_key \<Rightarrow> 'a SpatialMap" where
  "clear_data_link m key = store_data_link m key m_EmptySymbol"

subsection \<open>Queries\<close>

definition contains :: "'a SpatialMap \<Rightarrow> spatial_key \<Rightarrow> error + bool" where
  "contains m key =
     (if is_key_valid m key
      then (case fetch_data_link m key of
              Inl e \<Rightarrow> Inl e
            | Inr link \<Rightarrow> Inr (\<not> is_data_link_empty link))
      else Inl AssertionFailure)"

definition at_key :: "'a SpatialMap \<Rightarrow> spatial_key \<Rightarrow> error + 'a" where
  "at_key m key =
     (case contains m key of
        Inl e \<Rightarrow> Inl e
      | Inr False \<Rightarrow> Inl AssertionFailure
      | Inr True \<Rightarrow>
          (case fetch_data_link m key of
             Inl e \<Rightarrow> Inl e
           | Inr link \<Rightarrow>
               if link < length (m_Data m) then Inr (snd (m_Data m ! link))
               else Inl UndefinedBehaviour))"

definition key_size :: "'a SpatialMap \<Rightarrow> SizeF" where
  "key_size m = m_KeySize m"

definition input_region :: "'a SpatialMap \<Rightarrow> Rect" where
  "input_region m = m_InputRegion m"

definition resolution :: "'a SpatialMap \<Rightarrow> Size" where
  "resolution m = m_MapResolution m"

definition capacity :: "'a SpatialMap \<Rightarrow> nat" where
  "capacity m = length (m_Map m)"

definition is_empty :: "'a SpatialMap \<Rightarrow> bool" where
  "is_empty m = (m_Data m = [])"

definition size_of :: "'a SpatialMap \<Rightarrow> nat" where
  "size_of m = length (m_Data m)"

subsection \<open>Insertion\<close>

text \<open>
  \<^verbatim>\<open>place_at\<close> returns a reference into the data array; the model returns the new map
  and the index of the slot the reference points to.  On an occupied cell the source
  calls \<^verbatim>\<open>m_Data.emplace(m_Data.begin() + data_link, key, item)\<close>: \<^verbatim>\<open>std::vector::emplace\<close>
  constructs a new element before the given position, and the elements from that position
  on move up by one.
\<close>

definition place_at :: "'a SpatialMap \<Rightarrow> spatial_key \<Rightarrow> 'a \<Rightarrow> error + ('a SpatialMap \<times> nat)" where
  "place_at m key item =
     (if is_key_valid m key
      then (case fetch_data_link m key of
              Inl e \<Rightarrow> Inl e
            | Inr data_link \<Rightarrow>
                if is_data_link_empty data_link
                then Inr ((store_data_link m key (length (m_Data m)))
                             \<lparr>m_Data := m_Data m @ [(key, item)]\<rparr>,
                          length (m_Data m))
                else if data_link \<le> length (m_Data m)
                then Inr (m\<lparr>m_Data := take data_link (m_Data m) @ [(key, item)]
                                        @ drop data_link (m_Data m)\<rparr>,
                          data_link)
                else Inl UndefinedBehaviour)
      else Inl AssertionFailure)"

text \<open>\<^verbatim>\<open>emplace_at\<close> builds the item from the arguments, \<^verbatim>\<open>T{args...}\<close>, and is the same code.\<close>

definition emplace_at ::
  "'a SpatialMap \<Rightarrow> spatial_key \<Rightarrow> ('args \<Rightarrow> 'a) \<Rightarrow> 'args \<Rightarrow> error + ('a SpatialMap \<times> nat)" where
  "emplace_at m key make_item args =
     (if is_key_valid m key
      then (case fetch_data_link m key of
              Inl e \<Rightarrow> Inl e
            | Inr data_link \<Rightarrow>
                if is_data_link_empty data_link
                then Inr ((store_data_link m key (length (m_Data m)))
                             \<lparr>m_Data := m_Data m @ [(key, make_item args)]\<rparr>,
                          length (m_Data m))
                else if data_link \<le> length (m_Data m)
                then Inr (m\<lparr>m_Data := take data_link (m_Data m) @ [(key, make_item args)]
                                        @ drop data_link (m_Data m)\<rparr>,
                          data_link)
                else Inl UndefinedBehaviour)
      else Inl AssertionFailure)"

subsection \<open>Positions\<close>

text \<open>
  A position is a \<^verbatim>\<open>cv::Point_<P>\<close> for a numeric type \<open>P\<close>; its coordinates are
  rational numbers.  The second operand of \<^verbatim>\<open>&&\<close> is evaluated only when the first holds.
\<close>

type_synonym position = "rat \<times> rat"

definition within_bounds :: "'a SpatialMap \<Rightarrow> position \<Rightarrow> error + bool" where
  "within_bounds m pos =
     (let r = m_InputRegion m;
          br_x = rect_x r + rect_width r;
          br_y = rect_y r + rect_height r
      in case static_cast_int (fst pos) of
           Inl e \<Rightarrow> Inl e
         | Inr px \<Rightarrow>
             if between px (rect_x r) (br_x - 1)
             then (case static_cast_int (snd pos) of
                     Inl e \<Rightarrow> Inl e
                   | Inr py \<Rightarrow> Inr (between py (rect_y r) (br_y - 1)))
             else Inr False)"

definition simplify_key :: "position \<Rightarrow> SizeF \<Rightarrow> error + spatial_key" where
  "simplify_key point ksize =
     (if key_width ksize = 0 \<or> key_height ksize = 0 then Inl UndefinedBehaviour
      else case static_cast_size_t (fst point / key_width ksize) of
             Inl e \<Rightarrow> Inl e
           | Inr kx \<Rightarrow>
               (case static_cast_size_t (snd point / key_height ksize) of
                  Inl e \<Rightarrow> Inl e
                | Inr ky \<Rightarrow> Inr (kx, ky)))"

definition key_of :: "'a SpatialMap \<Rightarrow> position \<Rightarrow> error + spatial_key" where
  "key_of m pos =
     (case within_bounds m pos of
        Inl e \<Rightarrow> Inl e
      | Inr False \<Rightarrow> Inl AssertionFailure
      | Inr True \<Rightarrow>
          simplify_key (fst pos - of_int (rect_x (m_InputRegion m)),
                        snd pos - of_int (rect_y (m_InputRegion m)))
                       (m_KeySize m))"

definition place :: "'a SpatialMap \<Rightarrow> position \<Rightarrow> 'a \<Rightarrow> error + ('a SpatialMap \<times> nat)" where
  "place m pos item =
     (case within_bounds m pos of
        Inl e \<Rightarrow> Inl e
      | Inr False \<Rightarrow> Inl AssertionFailure
      | Inr True \<Rightarrow>
          (case key_of m pos of
             Inl e \<Rightarrow> Inl e
           | Inr key \<Rightarrow> place_at m key item))"

definition try_place :: "'a SpatialMap \<Rightarrow> position \<Rightarrow> 'a \<Rightarrow> error + ('a SpatialMap \<times> bool)" where
  "try_place m pos item =
     (case within_bounds m pos of
        Inl e \<Rightarrow> Inl e
      | Inr True \<Rightarrow>
          (case place m pos item of
             Inl e \<Rightarrow> Inl e
           | Inr (m', _) \<Rightarrow> Inr (m', True))
      | Inr False \<Rightarrow> Inr (m, False))"

definition emplace ::
  "'a SpatialMap \<Rightarrow> position \<Rightarrow> ('args \<Rightarrow> 'a) \<Rightarrow> 'args \<Rightarrow> error + ('a SpatialMap \<times> nat)" where
  "emplace m pos make_item args =
     (case within_bounds m pos of
        Inl e \<Rightarrow> Inl e
      | Inr False \<Rightarrow> Inl AssertionFailure
      | Inr True \<Rightarrow>
          (case key_of m pos of
             Inl e \<Rightarrow> Inl e
           | Inr key \<Rightarrow> emplace_at m key make_item args))"

definition try_emplace ::
  "'a SpatialMap \<Rightarrow> position \<Rightarrow> ('args \<Rightarrow> 'a) \<Rightarrow> 'args \<Rightarrow> error + ('a SpatialMap \<times> bool)" where
  "try_emplace m pos make_item args =
     (case within_bounds m pos of
        Inl e \<Rightarrow> Inl e
      | Inr True \<Rightarrow>
          (case emplace m pos make_item args of
             Inl e \<Rightarrow> Inl e
           | Inr (m', _) \<Rightarrow> Inr (m', True))
      | Inr False \<Rightarrow> Inr (m, False))"

subsection \<open>Removal\<close>

text \<open>
  \<^verbatim>\<open>remove\<close> swaps the slot of the key with the last slot of the data array and pops
  the array.  The source writes the swap as \<^verbatim>\<open>std::swap(m_Data[item_data_link], replace_item)\<close>,
  of a slot and of the item of the last slot; it is taken as the exchange of the two slots
  that the comment beside it describes (what the array holds after the pop is the same
  when only the last slot is copied over the slot of the key).  The link that is written
  next is \<^verbatim>\<open>fetch_data_link(key)\<close>, the link of the key that is removed, and the value
  written is that link's own: the statement changes nothing.  The last two statements
  pop the array and empty the link of the key.
\<close>

definition remove :: "'a SpatialMap \<Rightarrow> spatial_key \<Rightarrow> error + 'a SpatialMap" where
  "remove m key =
     (case contains m key of
        Inl e \<Rightarrow> Inl e
      | Inr False \<Rightarrow> Inl AssertionFailure
      | Inr True \<Rightarrow>
          (case fetch_data_link m key of
             Inl e \<Rightarrow> Inl e
           | Inr item_data_link \<Rightarrow>
               if m_Data m = [] then Inl UndefinedBehaviour
               else
                 let replace_key = fst (last (m_Data m))
                 in if key = replace_key
                    then Inr (clear_data_link (m\<lparr>m_Data := butlast (m_Data m)\<rparr>) key)
                    else if item_data_link < length (m_Data m)
                    then
                      let swapped = (m_Data m)[item_data_link := last (m_Data m),
                                               length (m_Data m) - 1 := m_Data m ! item_data_link];
                          m1 = m\<lparr>m_Data := swapped\<rparr>;
                          m2 = store_data_link m1 key item_data_link
                      in Inr (clear_data_link (m2\<lparr>m_Data := butlast (m_Data m2)\<rparr>) key)
                    else Inl UndefinedBehaviour))"

definition try_remove :: "'a SpatialMap \<Rightarrow> spatial_key \<Rightarrow> error + ('a SpatialMap \<times> bool)" where
  "try_remove m key =
     (case contains m key of
        Inl e \<Rightarrow> Inl e
      | Inr True \<Rightarrow>
          (case remove m key of
             Inl e \<Rightarrow> Inl e
           | Inr m' \<Rightarrow> Inr (m', True))
      | Inr False \<Rightarrow> Inr (m, False))"

subsection \<open>Clearing and rescaling\<close>

definition clear :: "'a SpatialMap \<Rightarrow> 'a SpatialMap" where
  "clear m = m\<lparr>m_Data := [], m_Map := map (\<lambda>pointer. m_EmptySymbol) (m_Map m)\<rparr>"

text \<open>The loop of \<^verbatim>\<open>rescale\<close> over the old data array.\<close>

fun reinsert :: "'a SpatialMap \<Rightarrow> (spatial_key \<times> 'a) list \<Rightarrow> error + 'a SpatialMap" where
  "reinsert m [] = Inr m"
| "reinsert m ((key, item) # old_data) =
     (if is_key_valid m key
      then (case place_at m key item of
              Inl e \<Rightarrow> Inl e
            | Inr (m', _) \<Rightarrow> reinsert m' old_data)
      else reinsert m old_data)"

text \<open>
  \<^verbatim>\<open>cv::Size::area\<close> multiplies two \<^verbatim>\<open>int\<close>s: a product beyond the largest \<^verbatim>\<open>int\<close> is a
  signed overflow.  The data array is empty after \<^verbatim>\<open>std::move\<close> has built \<^verbatim>\<open>old_data\<close>
  from it.
\<close>

definition rescale :: "'a SpatialMap \<Rightarrow> Size \<Rightarrow> Rect \<Rightarrow> error + 'a SpatialMap" where
  "rescale m res region =
     (if \<not> 1 \<le> size_width res then Inl AssertionFailure
      else if \<not> 1 \<le> size_height res then Inl AssertionFailure
      else if \<not> size_width res \<le> rect_width region then Inl AssertionFailure
      else if \<not> size_height res \<le> rect_height region then Inl AssertionFailure
      else if res \<noteq> m_MapResolution m \<or> region \<noteq> m_InputRegion m
      then
        if 2 ^ 31 \<le> size_width res * size_height res then Inl UndefinedBehaviour
        else
          reinsert
            (m\<lparr>m_InputRegion := region,
               m_MapResolution := res,
               m_KeySize := \<lparr>key_width = of_int (rect_width region) / of_int (size_width res),
                             key_height = of_int (rect_height region) / of_int (size_height res)\<rparr>,
               m_Map := replicate (nat (size_width res * size_height res)) m_EmptySymbol,
               m_Data := []\<rparr>)
            (m_Data m)
      else Inr m)"

subsection \<open>Distribution quality\<close>





subsection \<open>The invariant of the data model\<close>

text \<open>
  The grid has as many cells as the resolution says; every slot of the data array holds
  a valid key whose cell links back to the slot; every cell is empty or links to a
  slot whose key resolves to the cell.
\<close>

definition geometry_ok :: "'a SpatialMap \<Rightarrow> bool" where
  "geometry_ok m \<longleftrightarrow>
     1 \<le> size_width (m_MapResolution m) \<and> 1 \<le> size_height (m_MapResolution m) \<and>
     size_width (m_MapResolution m) * size_height (m_MapResolution m) < 2 ^ 31 \<and>
     length (m_Map m) = nat (size_width (m_MapResolution m) * size_height (m_MapResolution m))"

definition link_invariant :: "'a SpatialMap \<Rightarrow> bool" where
  "link_invariant m \<longleftrightarrow>
     geometry_ok m \<and>
     list_all (\<lambda>i. is_key_valid m (fst (m_Data m ! i)) \<and>
                    fetch_data_link m (fst (m_Data m ! i)) = Inr i)
              [0..<length (m_Data m)] \<and>
     list_all (\<lambda>c. m_Map m ! c = m_EmptySymbol \<or>
                    (m_Map m ! c < length (m_Data m) \<and>
                     resolve_spatial_key (fst (m_Data m ! (m_Map m ! c))) (m_MapResolution m) = c))
              [0..<length (m_Map m)]"

subsection \<open>Maps to run the code on\<close>

text \<open>
  A grid of 2 by 2 cells over the region of 4 by 4 units at the origin: empty, and with
  the value 10 in the cell \<open>(0, 0)\<close> and the value 20 in the cell \<open>(1, 1)\<close>.
\<close>

definition empty_grid :: "nat SpatialMap" where
  "empty_grid =
     \<lparr>m_MapResolution = \<lparr>size_width = 2, size_height = 2\<rparr>,
      m_InputRegion = \<lparr>rect_x = 0, rect_y = 0, rect_width = 4, rect_height = 4\<rparr>,
      m_KeySize = \<lparr>key_width = 2, key_height = 2\<rparr>,
      m_Map = [m_EmptySymbol, m_EmptySymbol, m_EmptySymbol, m_EmptySymbol],
      m_Data = []\<rparr>"

definition two_entries :: "nat SpatialMap" where
  "two_entries =
     \<lparr>m_MapResolution = \<lparr>size_width = 2, size_height = 2\<rparr>,
      m_InputRegion = \<lparr>rect_x = 0, rect_y = 0, rect_width = 4, rect_height = 4\<rparr>,
      m_KeySize = \<lparr>key_width = 2, key_height = 2\<rparr>,
      m_Map = [0, m_EmptySymbol, m_EmptySymbol, 1],
      m_Data = [((0, 0), 10), ((1, 1), 20)]\<rparr>"



section \<open>The stabilisation filter\<close>

subsection \<open>Doubles\<close>

text \<open>
  The loop of \<^verbatim>\<open>enclose_crop\<close> counts in \<^verbatim>\<open>double\<close>, and how often it runs depends on the
  rounding of its additions.  A double is a pair \<open>(m, e)\<close> of a significand and an
  exponent, the number \<open>m * 2 ^ e\<close>; the results of the operations are rounded to 53
  bits, to the nearest value and to the even one of two nearest.  The range of the
  exponent is not limited: the numbers of the loop lie between 1/128 and 2.
\<close>

type_synonym double = "int \<times> int"

definition double_value :: "double \<Rightarrow> rat" where
  "double_value d = of_int (fst d) * 2 powi (snd d)"

fun bit_length :: "nat \<Rightarrow> nat" where
  "bit_length n = (if n = 0 then 0 else Suc (bit_length (n div 2)))"

declare bit_length.simps [simp del]

text \<open>The double nearest to the number \<open>m * 2 ^ e\<close>.\<close>

definition round_to_double :: "int \<Rightarrow> int \<Rightarrow> double" where
  "round_to_double m e =
     (if m = 0 then (0, 0)
      else
        let k = int (bit_length (nat \<bar>m\<bar>)) - 53
        in if k \<le> 0 then (m * 2 ^ nat (- k), e + k)
           else
             let q = \<bar>m\<bar> div 2 ^ nat k;
                 r = \<bar>m\<bar> mod 2 ^ nat k;
                 half = 2 ^ nat (k - 1);
                 n = (if r < half then q else if half < r then q + 1
                      else if even q then q else q + 1)
             in if n = 2 ^ 53 then (sgn m * 2 ^ 52, e + k + 1) else (sgn m * n, e + k))"

definition double_of_int :: "int \<Rightarrow> double" where
  "double_of_int i = round_to_double i 0"

definition double_add :: "double \<Rightarrow> double \<Rightarrow> double" where
  "double_add a b =
     (let e = min (snd a) (snd b)
      in round_to_double (fst a * 2 ^ nat (snd a - e) + fst b * 2 ^ nat (snd b - e)) e)"

definition double_le :: "double \<Rightarrow> double \<Rightarrow> bool" where
  "double_le a b =
     (let e = min (snd a) (snd b)
      in fst a * 2 ^ nat (snd a - e) \<le> fst b * 2 ^ nat (snd b - e))"

text \<open>
  The quotient of two doubles, for a divisor other than zero: the quotient of the
  significands with 55 bits at least and one more bit that says whether a remainder is
  left, rounded.
\<close>

definition double_div :: "double \<Rightarrow> double \<Rightarrow> double" where
  "double_div a b =
     (if fst b = 0 then (0, 0)
      else
        let k = 55 + bit_length (nat \<bar>fst b\<bar>);
            n = \<bar>fst a\<bar> * 2 ^ k;
            sticky = (if n mod \<bar>fst b\<bar> = 0 then 0 else 1)
        in round_to_double (sgn (fst a) * sgn (fst b) * (2 * (n div \<bar>fst b\<bar>) + sticky))
             (snd a - snd b - int k - 1))"

subsection \<open>Ring buffers\<close>

text \<open>
  Modelled from the spec: the class \<^verbatim>\<open>SlidingBuffer\<close> of the frame queue, the trajectory and
  the filter kernel is not among the sources.  The spec describes it as a fixed-capacity
  circular sequence with \<^verbatim>\<open>advance\<close> (push, evicting the oldest element if full),
  \<^verbatim>\<open>oldest\<close>, \<^verbatim>\<open>newest\<close>, \<^verbatim>\<open>centre\<close> (the middle element of a full window), \<^verbatim>\<open>full()\<close>,
  \<^verbatim>\<open>window_size()\<close> and \<^verbatim>\<open>clear()\<close>.  The elements are listed from the oldest to the
  newest.  \<^verbatim>\<open>previous\<close> is the element before the newest, \<^verbatim>\<open>resize\<close> sets the capacity
  and keeps the newest elements that fit; an element that is not there is undefined
  behaviour.
\<close>

record 'a SlidingBuffer =
  sb_window_size :: nat
  sb_elements :: "'a list"

definition window_size :: "'a SlidingBuffer \<Rightarrow> nat" where
  "window_size b = sb_window_size b"

definition elements :: "'a SlidingBuffer \<Rightarrow> nat" where
  "elements b = length (sb_elements b)"

definition full :: "'a SlidingBuffer \<Rightarrow> bool" where
  "full b = (elements b = window_size b)"

definition advance :: "'a SlidingBuffer \<Rightarrow> 'a \<Rightarrow> 'a SlidingBuffer" where
  "advance b x =
     b\<lparr>sb_elements := (if full b then tl (sb_elements b) else sb_elements b) @ [x]\<rparr>"

definition oldest :: "'a SlidingBuffer \<Rightarrow> error + 'a" where
  "oldest b = (case sb_elements b of [] \<Rightarrow> Inl UndefinedBehaviour | x # _ \<Rightarrow> Inr x)"

definition newest :: "'a SlidingBuffer \<Rightarrow> error + 'a" where
  "newest b = (if sb_elements b = [] then Inl UndefinedBehaviour else Inr (last (sb_elements b)))"

definition previous :: "'a SlidingBuffer \<Rightarrow> error + 'a" where
  "previous b =
     (if elements b < 2 then Inl UndefinedBehaviour
      else Inr (sb_elements b ! (elements b - 2)))"

definition centre :: "'a SlidingBuffer \<Rightarrow> error + 'a" where
  "centre b =
     (if sb_elements b = [] then Inl UndefinedBehaviour
      else Inr (sb_elements b ! (elements b div 2)))"

definition clear_buffer :: "'a SlidingBuffer \<Rightarrow> 'a SlidingBuffer" where
  "clear_buffer b = b\<lparr>sb_elements := []\<rparr>"

definition resize :: "'a SlidingBuffer \<Rightarrow> nat \<Rightarrow> 'a SlidingBuffer" where
  "resize b n = b\<lparr>sb_window_size := n, sb_elements := drop (elements b - n) (sb_elements b)\<rparr>"

text \<open>A write through the reference that \<^verbatim>\<open>advance()\<close> returned, to the newest element.\<close>

definition store_newest :: "'a SlidingBuffer \<Rightarrow> 'a \<Rightarrow> 'a SlidingBuffer" where
  "store_newest b x = b\<lparr>sb_elements := butlast (sb_elements b) @ [x]\<rparr>"

subsection \<open>The state of the filter and what it calls\<close>

record 'tr FrameVector =
  displacement :: 'tr
  velocity :: 'tr

record ('img, 'obs) FrameBuffer =
  buffer_frame :: 'img
  buffer_output :: 'obs

text \<open>
  The members of \<^verbatim>\<open>VSFilter\<close> that \<^verbatim>\<open>process\<close>, \<^verbatim>\<open>enclose_crop\<close>, \<^verbatim>\<open>prepare_buffers\<close>,
  \<^verbatim>\<open>reset_buffers\<close> and \<^verbatim>\<open>stabilisation_ready\<close> use.  An image (\<^verbatim>\<open>cv::UMat\<close>), a frame of
  the host (\<^verbatim>\<open>obs_source_frame*\<close>), a \<^verbatim>\<open>Transform\<close>, the \<^verbatim>\<open>FrameTracker\<close> and a
  \<^verbatim>\<open>BoundingBox\<close> are values of types that are not given here.
\<close>

record ('img, 'obs, 'tr, 'tk) VSFilter =
  m_TestMode :: bool
  m_SmoothingRadius :: nat
  m_CropRegion :: Rect
  m_WarpFrame :: 'img
  m_TrackingFrame :: 'img
  m_FrameTracker :: 'tk
  m_FrameQueue :: "('img, 'obs) FrameBuffer SlidingBuffer"
  m_Trajectory :: "'tr FrameVector SlidingBuffer"
  m_Filter :: "double SlidingBuffer"

text \<open>
  The operations of OpenCV, of the host and of the classes \<^verbatim>\<open>Transform\<close>, \<^verbatim>\<open>BoundingBox\<close>
  and \<^verbatim>\<open>FrameTracker\<close>, none of which is among the sources, are parameters of the model:
  \<^verbatim>\<open>Transform::Identity()\<close>, the sum and the difference of two transforms, \<^verbatim>\<open>lerp\<close>,
  \<^verbatim>\<open>FrameTracker::track\<close> (which returns the velocity and the tracker's next state),
  \<^verbatim>\<open>SlidingBuffer::convolve\<close>, the coefficients of \<^verbatim>\<open>cv::getGaussianKernel\<close>, the
  conversion of a host frame to an image, \<^verbatim>\<open>cv::extractChannel\<close>, \<^verbatim>\<open>cv::warpAffine\<close>, the
  size of an image, the constructor of \<^verbatim>\<open>BoundingBox\<close>, \<^verbatim>\<open>BoundingBox::transform\<close>,
  \<^verbatim>\<open>BoundingBox::encloses\<close>, and the drawing of the rectangle and the text of the test
  mode.
\<close>

record ('img, 'obs, 'tr, 'tk, 'bb) externals =
  Identity :: 'tr
  transform_plus :: "'tr \<Rightarrow> 'tr \<Rightarrow> 'tr"
  transform_minus :: "'tr \<Rightarrow> 'tr \<Rightarrow> 'tr"
  lerp :: "'tr \<Rightarrow> 'tr \<Rightarrow> double \<Rightarrow> 'tr"
  track :: "'tk \<Rightarrow> 'img \<Rightarrow> 'tr \<times> 'tk"
  convolve :: "'tr FrameVector list \<Rightarrow> double list \<Rightarrow> 'tr FrameVector"
  getGaussianKernel :: "nat \<Rightarrow> double \<Rightarrow> nat \<Rightarrow> double"
  image_of_frame :: "'obs \<Rightarrow> 'img"
  extractChannel :: "'img \<Rightarrow> 'img"
  warpAffine :: "'img \<Rightarrow> 'tr \<Rightarrow> 'img"
  image_size :: "'img \<Rightarrow> Size"
  BoundingBox :: "Size \<Rightarrow> 'tr \<Rightarrow> 'bb"
  bounds_transform :: "'bb \<Rightarrow> 'tr \<Rightarrow> 'bb"
  encloses :: "'bb \<Rightarrow> Rect \<Rightarrow> bool"
  draw_overlay :: "'img \<Rightarrow> Rect \<Rightarrow> nat \<Rightarrow> 'img"

definition SMOOTHING_RADIUS_MIN :: nat where
  "SMOOTHING_RADIUS_MIN = 2"

definition SMOOTHING_RADIUS_MAX :: nat where
  "SMOOTHING_RADIUS_MAX = 30"

text \<open>The arithmetic of \<^verbatim>\<open>uint32_t\<close>.\<close>

definition uint32_plus :: "nat \<Rightarrow> nat \<Rightarrow> nat" where
  "uint32_plus a b = (a + b) mod 2 ^ 32"

definition uint32_minus :: "nat \<Rightarrow> nat \<Rightarrow> nat" where
  "uint32_minus a b = (a + 2 ^ 32 - b mod 2 ^ 32) mod 2 ^ 32"

definition uint32_times :: "nat \<Rightarrow> nat \<Rightarrow> nat" where
  "uint32_times a b = (a * b) mod 2 ^ 32"

text \<open>
  The sum of two frame vectors, and the frame vector that a \<^verbatim>\<open>Transform\<close> converts to where
  the code passes a \<^verbatim>\<open>Transform\<close> for a \<^verbatim>\<open>FrameVector\<close>: its displacement; the default of
  the velocity is declared in \<^verbatim>\<open>VSFilter.hpp\<close>, which is not among the sources, and is taken
  to be the identity.
\<close>

definition vector_plus ::
  "('img, 'obs, 'tr, 'tk, 'bb) externals \<Rightarrow> 'tr FrameVector \<Rightarrow> 'tr FrameVector \<Rightarrow> 'tr FrameVector" where
  "vector_plus ext a b =
     \<lparr>displacement = transform_plus ext (displacement a) (displacement b),
      velocity = transform_plus ext (velocity a) (velocity b)\<rparr>"

definition vector_of ::
  "('img, 'obs, 'tr, 'tk, 'bb) externals \<Rightarrow> 'tr \<Rightarrow> 'tr FrameVector" where
  "vector_of ext t = \<lparr>displacement = t, velocity = Identity ext\<rparr>"

subsection \<open>The buffers\<close>

definition stabilisation_ready :: "('img, 'obs, 'tr, 'tk) VSFilter \<Rightarrow> error + bool" where
  "stabilisation_ready s =
     (if full (m_Trajectory s) = full (m_FrameQueue s)
      then Inr (full (m_Trajectory s) \<and> full (m_FrameQueue s))
      else Inl AssertionFailure)"

text \<open>
  The loop of \<^verbatim>\<open>reset_buffers\<close>.  It runs while the trajectory has fewer elements than
  \<^verbatim>\<open>m_SmoothingRadius - 1\<close>, and does not end when the window is smaller than that: the
  result \<open>None\<close> stands for a run without end.
\<close>

partial_function (option) seed_trajectory ::
  "('img, 'obs, 'tr, 'tk, 'bb) externals \<Rightarrow> nat \<Rightarrow> 'tr FrameVector SlidingBuffer
     \<Rightarrow> (error + 'tr FrameVector SlidingBuffer) option" where
  "seed_trajectory ext radius trajectory =
     (if elements trajectory < uint32_minus radius 1
      then (case newest trajectory of
              Inl e \<Rightarrow> Some (Inl e)
            | Inr n \<Rightarrow>
                seed_trajectory ext radius
                  (advance trajectory (vector_plus ext n (vector_of ext (Identity ext)))))
      else Some (Inr trajectory))"

text \<open>
  The frames of the queue are released to the host before the queue is cleared; the
  host is not part of the state.
\<close>

definition reset_buffers ::
  "('img, 'obs, 'tr, 'tk, 'bb) externals \<Rightarrow> ('img, 'obs, 'tr, 'tk) VSFilter
     \<Rightarrow> (error + ('img, 'obs, 'tr, 'tk) VSFilter) option" where
  "reset_buffers ext s =
     (if window_size (m_Trajectory s) > window_size (m_FrameQueue s)
      then
        (case seed_trajectory ext (m_SmoothingRadius s)
                (advance (clear_buffer (m_Trajectory s)) (vector_of ext (Identity ext))) of
           None \<Rightarrow> None
         | Some (Inl e) \<Rightarrow> Some (Inl e)
         | Some (Inr trajectory) \<Rightarrow>
             Some (Inr (s\<lparr>m_FrameQueue := clear_buffer (m_FrameQueue s),
                          m_Trajectory := trajectory\<rparr>)))
      else Some (Inl AssertionFailure))"

definition prepare_buffers ::
  "('img, 'obs, 'tr, 'tk, 'bb) externals \<Rightarrow> ('img, 'obs, 'tr, 'tk) VSFilter \<Rightarrow> nat
     \<Rightarrow> (error + ('img, 'obs, 'tr, 'tk) VSFilter) option" where
  "prepare_buffers ext s smoothing_radius =
     (if SMOOTHING_RADIUS_MIN \<le> smoothing_radius \<and> smoothing_radius mod 2 = 0
      then
        let queue_size = uint32_plus smoothing_radius 2;
            window = uint32_plus (uint32_times 2 smoothing_radius) 1;
            gaussian_kernel =
              getGaussianKernel ext window (double_div (double_of_int (int window)) (double_of_int 6))
        in reset_buffers ext
             (s\<lparr>m_SmoothingRadius := smoothing_radius,
                m_FrameQueue := resize (m_FrameQueue s) queue_size,
                m_Trajectory := resize (m_Trajectory s) window,
                m_Filter := fold (\<lambda>i filter. advance filter (gaussian_kernel i)) [0..<window]
                              (clear_buffer (resize (m_Filter s) window))\<rparr>)
      else Some (Inl AssertionFailure))"

text \<open>
  One frame advance: the two calls of \<^verbatim>\<open>advance\<close> in \<^verbatim>\<open>process\<close>, which push one
  element onto the frame queue and one onto the trajectory.
\<close>

definition frame_advance ::
  "('img, 'obs, 'tr, 'tk) VSFilter \<Rightarrow> ('img, 'obs) FrameBuffer \<times> 'tr FrameVector
     \<Rightarrow> ('img, 'obs, 'tr, 'tk) VSFilter" where
  "frame_advance s pushed =
     s\<lparr>m_FrameQueue := advance (m_FrameQueue s) (fst pushed),
       m_Trajectory := advance (m_Trajectory s) (snd pushed)\<rparr>"

subsection \<open>The crop-enclosure search\<close>

definition max_t :: double where
  "max_t = double_of_int 1"

definition max_iterations :: int where
  "max_iterations = 100"

definition step :: double where
  "step = double_div max_t (double_of_int max_iterations)"

text \<open>
  The loop of \<^verbatim>\<open>enclose_crop\<close>, with the variables \<^verbatim>\<open>t\<close>, \<^verbatim>\<open>reduced_transform\<close> and
  \<^verbatim>\<open>frame_bounds\<close> as its state.
\<close>

partial_function (option) enclose_loop ::
  "('img, 'obs, 'tr, 'tk, 'bb) externals \<Rightarrow> Rect \<Rightarrow> 'tr \<Rightarrow> double \<Rightarrow> 'tr \<Rightarrow> 'bb \<Rightarrow> 'tr option" where
  "enclose_loop ext crop transform t reduced_transform frame_bounds =
     (if double_le t max_t \<and> \<not> encloses ext frame_bounds crop
      then enclose_loop ext crop transform (double_add t step)
             (lerp ext transform (Identity ext) t)
             (bounds_transform ext frame_bounds (lerp ext transform (Identity ext) t))
      else Some reduced_transform)"

definition enclose_crop ::
  "('img, 'obs, 'tr, 'tk, 'bb) externals \<Rightarrow> ('img, 'obs, 'tr, 'tk) VSFilter \<Rightarrow> 'img \<Rightarrow> 'tr
     \<Rightarrow> 'tr option" where
  "enclose_crop ext s img transform =
     enclose_loop ext (m_CropRegion s) transform step transform
       (BoundingBox ext (image_size ext img) transform)"

subsection \<open>Processing a frame\<close>

definition draw_test_mode ::
  "('img, 'obs, 'tr, 'tk, 'bb) externals \<Rightarrow> ('img, 'obs, 'tr, 'tk) VSFilter \<Rightarrow> 'img \<Rightarrow> nat \<Rightarrow> 'img" where
  "draw_test_mode ext s img frame_time_ns = draw_overlay ext img (m_CropRegion s) frame_time_ns"

text \<open>
  \<^verbatim>\<open>process\<close> takes the frame of the host and, for the two readings of the clock, the time
  between them.  It returns the frame of the host that it hands back, with the image
  written into it, or nothing (\<^verbatim>\<open>nullptr\<close>).  The element that \<^verbatim>\<open>m_Trajectory.advance()\<close>
  adds is written through the reference that the call returns: the model adds an element
  and stores the motion over it.  The branch that is taken when the stabilisation is ready
  comes first.
\<close>

definition stabilise ::
  "('img, 'obs, 'tr, 'tk, 'bb) externals \<Rightarrow> ('img, 'obs, 'tr, 'tk) VSFilter \<Rightarrow> nat
     \<Rightarrow> (error + (('img, 'obs, 'tr, 'tk) VSFilter \<times> ('obs \<times> 'img) option)) option" where
  "stabilise ext s frame_time_ns =
     (case oldest (m_FrameQueue s) of
        Inl e \<Rightarrow> Some (Inl e)
      | Inr buffer \<Rightarrow>
          (case centre (m_Trajectory s) of
             Inl e \<Rightarrow> Some (Inl e)
           | Inr middle \<Rightarrow>
               (let correction =
                      transform_minus ext
                        (displacement (convolve ext (sb_elements (m_Trajectory s))
                                         (sb_elements (m_Filter s))))
                        (displacement middle);
                    smooth_warp = transform_plus ext (velocity middle) correction
                in (case enclose_crop ext s (buffer_frame buffer) smooth_warp of
                      None \<Rightarrow> None
                    | Some cropped_warp \<Rightarrow>
                        (let warped = warpAffine ext (buffer_frame buffer) cropped_warp;
                             s1 = s\<lparr>m_WarpFrame := warped\<rparr>
                         in if m_TestMode s1
                            then Some (Inr (s1\<lparr>m_WarpFrame :=
                                               draw_test_mode ext s1 warped frame_time_ns\<rparr>,
                                            Some (buffer_output buffer,
                                                  draw_test_mode ext s1 warped frame_time_ns)))
                            else Some (Inr (s1, Some (buffer_output buffer, warped))))))))"

definition process ::
  "('img, 'obs, 'tr, 'tk, 'bb) externals \<Rightarrow> ('img, 'obs, 'tr, 'tk) VSFilter \<Rightarrow> 'obs \<Rightarrow> nat
     \<Rightarrow> (error + (('img, 'obs, 'tr, 'tk) VSFilter \<times> ('obs \<times> 'img) option)) option" where
  "process ext s obs_frame frame_time_ns =
     (let queue = advance (m_FrameQueue s)
                    \<lparr>buffer_frame = image_of_frame ext obs_frame, buffer_output = obs_frame\<rparr>;
          tracking = extractChannel ext (image_of_frame ext obs_frame);
          advanced = advance (m_Trajectory s) (vector_of ext (Identity ext));
          tracked = track ext (m_FrameTracker s) tracking
      in (case previous advanced of
            Inl e \<Rightarrow> Some (Inl e)
          | Inr before \<Rightarrow>
              (let motion = \<lparr>displacement = transform_plus ext (displacement before) (fst tracked),
                             velocity = fst tracked\<rparr>;
                   s1 = s\<lparr>m_TrackingFrame := tracking,
                          m_FrameTracker := snd tracked,
                          m_FrameQueue := queue,
                          m_Trajectory := store_newest advanced motion\<rparr>
               in (case stabilisation_ready s1 of
                     Inl e \<Rightarrow> Some (Inl e)
                   | Inr ready \<Rightarrow>
                       if ready then stabilise ext s1 frame_time_ns
                       else Some (Inr (s1, None))))))"


text \<open>The frame advances of a run, one after the other.\<close>

fun frame_advances ::
  "('img, 'obs, 'tr, 'tk) VSFilter \<Rightarrow> (('img, 'obs) FrameBuffer \<times> 'tr FrameVector) list
     \<Rightarrow> ('img, 'obs, 'tr, 'tk) VSFilter" where
  "frame_advances s [] = s"
| "frame_advances s (pushed # rest) = frame_advances (frame_advance s pushed) rest"

subsection \<open>The values of the loop counter, and a filter to run the code on\<close>

text \<open>
  The value of \<open>t\<close> after a number of additions of the step, and whether the first
  values of \<open>t\<close> pass the test \<^verbatim>\<open>t <= max_t\<close> of the loop.
\<close>

fun t_after :: "nat \<Rightarrow> double \<Rightarrow> double" where
  "t_after n t = (if n = 0 then t else t_after (n - 1) (double_add t step))"

declare t_after.simps [simp del]

fun fractions_within :: "nat \<Rightarrow> double \<Rightarrow> bool" where
  "fractions_within n t =
     (if n = 0 then True else double_le t max_t \<and> fractions_within (n - 1) (double_add t step))"

declare fractions_within.simps [simp del]

text \<open>
  A filter for frames of 100 by 100 pixels with a crop region of 90 by 90 pixels in their
  middle.  A transform is a shift along the first axis by a rational number of pixels, the
  identity is the shift by 0, \<^verbatim>\<open>lerp\<close> is the linear interpolation of the shifts, and the
  bounding box of the shifted frame encloses the crop when the crop lies between its two
  ends.  The frames of the host are numbers.
\<close>

definition shift_externals :: "(unit, nat, rat, unit, rat \<times> rat) externals" where
  "shift_externals =
     \<lparr>Identity = 0,
      transform_plus = (\<lambda>a b. a + b),
      transform_minus = (\<lambda>a b. a - b),
      lerp = (\<lambda>a b t. a + (b - a) * double_value t),
      track = (\<lambda>tracker img. (0, tracker)),
      convolve = (\<lambda>vectors kernel. \<lparr>displacement = 0, velocity = 0\<rparr>),
      getGaussianKernel = (\<lambda>n sigma i. (0, 0)),
      image_of_frame = (\<lambda>obs_frame. ()),
      extractChannel = (\<lambda>img. ()),
      warpAffine = (\<lambda>img transform. ()),
      image_size = (\<lambda>img. \<lparr>size_width = 100, size_height = 100\<rparr>),
      BoundingBox = (\<lambda>size transform. (transform, transform + of_int (size_width size))),
      bounds_transform = (\<lambda>bounds transform. (transform, transform + (snd bounds - fst bounds))),
      encloses = (\<lambda>bounds crop. fst bounds \<le> of_int (rect_x crop) \<and>
                                  of_int (rect_x crop + rect_width crop) \<le> snd bounds),
      draw_overlay = (\<lambda>img crop time. ())\<rparr>"

definition shift_filter :: "(unit, nat, rat, unit) VSFilter" where
  "shift_filter =
     \<lparr>m_TestMode = False, m_SmoothingRadius = 2,
      m_CropRegion = \<lparr>rect_x = 5, rect_y = 5, rect_width = 90, rect_height = 90\<rparr>,
      m_WarpFrame = (), m_TrackingFrame = (), m_FrameTracker = (),
      m_FrameQueue = \<lparr>sb_window_size = 4, sb_elements = []\<rparr>,
      m_Trajectory = \<lparr>sb_window_size = 5, sb_elements = []\<rparr>,
      m_Filter = \<lparr>sb_window_size = 5, sb_elements = []\<rparr>\<rparr>"

section \<open>Properties of SpatialMap\<close>

subsection \<open>Keys, cells and the invariant\<close>

lemma size_t_of_int_nat: "0 \<le> i \<Longrightarrow> i < 2 ^ 64 \<Longrightarrow> size_t_of_int i = nat i"
  by (simp add: size_t_of_int_def)

lemma geometry_bounds:
  assumes "geometry_ok m"
  shows "size_width (m_MapResolution m) < 2 ^ 31" "size_height (m_MapResolution m) < 2 ^ 31"
proof -
  let ?w = "size_width (m_MapResolution m)" and ?h = "size_height (m_MapResolution m)"
  from assms have w: "1 \<le> ?w" and h: "1 \<le> ?h" and a: "?w * ?h < 2 ^ 31"
    by (simp_all add: geometry_ok_def)
  have "?w * 1 \<le> ?w * ?h" using w h by (intro mult_left_mono) simp_all
  with a show "?w < 2 ^ 31" by simp
  have "1 * ?h \<le> ?w * ?h" using w h by (intro mult_right_mono) simp_all
  with a show "?h < 2 ^ 31" by simp
qed

lemma is_key_valid_iff:
  assumes "geometry_ok m"
  shows "is_key_valid m k \<longleftrightarrow>
           fst k < nat (size_width (m_MapResolution m)) \<and> snd k < nat (size_height (m_MapResolution m))"
proof -
  have "size_t_of_int (size_width (m_MapResolution m)) = nat (size_width (m_MapResolution m))"
    using assms geometry_bounds(1)[OF assms] by (intro size_t_of_int_nat) (simp_all add: geometry_ok_def)
  moreover have "size_t_of_int (size_height (m_MapResolution m)) = nat (size_height (m_MapResolution m))"
    using assms geometry_bounds(2)[OF assms] by (intro size_t_of_int_nat) (simp_all add: geometry_ok_def)
  ultimately show ?thesis by (simp add: is_key_valid_def)
qed

lemma resolve_valid:
  assumes g: "geometry_ok m" and v: "is_key_valid m k"
  shows "resolve_spatial_key k (m_MapResolution m) = snd k * nat (size_width (m_MapResolution m)) + fst k"
    and "resolve_spatial_key k (m_MapResolution m) < length (m_Map m)"
proof -
  let ?w = "nat (size_width (m_MapResolution m))" and ?h = "nat (size_height (m_MapResolution m))"
  from v g have x: "fst k < ?w" and y: "snd k < ?h" by (simp_all add: is_key_valid_iff)
  have len: "length (m_Map m) = ?h * ?w"
    using g by (simp add: geometry_ok_def nat_mult_distrib mult.commute)
  have "snd k * ?w + fst k < Suc (snd k) * ?w" using x by simp
  also have "\<dots> \<le> ?h * ?w" using y by (intro mult_right_mono) simp_all
  finally have lt: "snd k * ?w + fst k < ?h * ?w" .
  have "?h * ?w < 2 ^ 64"
  proof -
    have "int (?h * ?w) < 2 ^ 31" using g by (simp add: geometry_ok_def nat_mult_distrib mult.commute)
    then have "?h * ?w < 2 ^ 31" by (metis of_nat_less_numeral_power_cancel_iff)
    then show ?thesis by simp
  qed
  with lt have small: "snd k * ?w + fst k < 2 ^ 64" by simp
  have w: "size_t_of_int (size_width (m_MapResolution m)) = ?w"
    using g geometry_bounds(1)[OF g] by (intro size_t_of_int_nat) (simp_all add: geometry_ok_def)
  show r: "resolve_spatial_key k (m_MapResolution m) = snd k * ?w + fst k"
    using small by (simp add: resolve_spatial_key_def index_2d_def w)
  show "resolve_spatial_key k (m_MapResolution m) < length (m_Map m)"
    using lt by (simp add: r len)
qed

lemma resolve_inj:
  assumes g: "geometry_ok m" and v: "is_key_valid m k" and v': "is_key_valid m k'"
    and e: "resolve_spatial_key k (m_MapResolution m) = resolve_spatial_key k' (m_MapResolution m)"
  shows "k = k'"
proof -
  let ?w = "nat (size_width (m_MapResolution m))"
  have x: "fst k < ?w" and x': "fst k' < ?w" using v v' g by (simp_all add: is_key_valid_iff)
  have eq: "snd k * ?w + fst k = snd k' * ?w + fst k'"
    using e resolve_valid(1)[OF g v] resolve_valid(1)[OF g v'] by simp
  have "(snd k * ?w + fst k) div ?w = snd k" "(snd k * ?w + fst k) mod ?w = fst k" using x by simp_all
  moreover have "(snd k' * ?w + fst k') div ?w = snd k'" "(snd k' * ?w + fst k') mod ?w = fst k'" using x' by simp_all
  ultimately have "snd k = snd k'" "fst k = fst k'" using eq by metis+
  then show ?thesis by (simp add: prod_eq_iff)
qed


lemma is_key_valid_cong:
  "m_MapResolution m' = m_MapResolution m \<Longrightarrow> is_key_valid m' k = is_key_valid m k"
  by (simp add: is_key_valid_def)

lemma link_invariantD:
  assumes "link_invariant m"
  shows "geometry_ok m"
    and "\<And>i. i < length (m_Data m) \<Longrightarrow> is_key_valid m (fst (m_Data m ! i))"
    and "\<And>i. i < length (m_Data m) \<Longrightarrow> fetch_data_link m (fst (m_Data m ! i)) = Inr i"
    and "\<And>c. c < length (m_Map m) \<Longrightarrow> m_Map m ! c = m_EmptySymbol \<or>
           (m_Map m ! c < length (m_Data m) \<and>
            resolve_spatial_key (fst (m_Data m ! (m_Map m ! c))) (m_MapResolution m) = c)"
  using assms by (simp_all add: link_invariant_def list_all_iff)


lemma fetch_valid:
  assumes "geometry_ok m" "is_key_valid m k"
  shows "fetch_data_link m k = Inr (m_Map m ! resolve_spatial_key k (m_MapResolution m))"
  using resolve_valid(2)[OF assms] by (simp add: fetch_data_link_def)

text \<open>The keys of the data array are pairwise different, so the array is no longer than the grid.\<close>

lemma invariant_keys_distinct:
  assumes "link_invariant m"
  shows "distinct (map fst (m_Data m))"
proof -
  have "i = j" if "i < length (m_Data m)" "j < length (m_Data m)"
    "fst (m_Data m ! i) = fst (m_Data m ! j)" for i j
  proof -
    have "Inr i = fetch_data_link m (fst (m_Data m ! i))"
      by (rule link_invariantD(3)[OF assms that(1), symmetric])
    also have "\<dots> = fetch_data_link m (fst (m_Data m ! j))" by (simp only: that(3))
    also have "\<dots> = Inr j" by (rule link_invariantD(3)[OF assms that(2)])
    finally show ?thesis by simp
  qed
  then have "\<forall>i<length (m_Data m). \<forall>j<length (m_Data m). i \<noteq> j \<longrightarrow>
      fst (m_Data m ! i) \<noteq> fst (m_Data m ! j)" by blast
  then show ?thesis by (simp add: distinct_conv_nth)
qed

lemma invariant_size_le_capacity:
  assumes "link_invariant m"
  shows "length (m_Data m) \<le> length (m_Map m)"
proof -
  let ?f = "\<lambda>e. resolve_spatial_key (fst e) (m_MapResolution m)"
  have g: "geometry_ok m" by (rule link_invariantD(1)[OF assms])
  have inj: "inj_on ?f (set (m_Data m))"
  proof (rule inj_onI)
    fix a b assume a: "a \<in> set (m_Data m)" and b: "b \<in> set (m_Data m)" and e: "?f a = ?f b"
    from a obtain i where i: "i < length (m_Data m)" "a = m_Data m ! i" by (auto simp: in_set_conv_nth)
    from b obtain j where j: "j < length (m_Data m)" "b = m_Data m ! j" by (auto simp: in_set_conv_nth)
    have "fst a = fst b"
      using resolve_inj[OF g link_invariantD(2)[OF assms i(1)] link_invariantD(2)[OF assms j(1)]] e i j
      by simp
    then have "fst (m_Data m ! i) = fst (m_Data m ! j)" using i j by simp
    then have "i = j"
      using invariant_keys_distinct[OF assms] i(1) j(1)
      by (metis distinct_conv_nth length_map nth_map)
    then show "a = b" using i j by simp
  qed
  have sub: "?f ` set (m_Data m) \<subseteq> {..<length (m_Map m)}"
  proof
    fix c assume "c \<in> ?f ` set (m_Data m)"
    then obtain i where i: "i < length (m_Data m)" "c = ?f (m_Data m ! i)" by (auto simp: in_set_conv_nth)
    then show "c \<in> {..<length (m_Map m)}"
      using resolve_valid(2)[OF g link_invariantD(2)[OF assms i(1)]] by simp
  qed
  have d: "distinct (m_Data m)"
    using invariant_keys_distinct[OF assms] by (simp add: distinct_map)
  have "length (m_Data m) = card (set (m_Data m))" using d by (simp add: distinct_card)
  also have "\<dots> = card (?f ` set (m_Data m))" using inj by (simp add: card_image)
  also have "\<dots> \<le> card {..<length (m_Map m)}" using sub by (intro card_mono) simp_all
  finally show ?thesis by simp
qed

lemma invariant_size_small:
  assumes "link_invariant m"
  shows "length (m_Data m) < m_EmptySymbol"
proof -
  have g: "geometry_ok m" by (rule link_invariantD(1)[OF assms])
  have "int (length (m_Map m)) < 2 ^ 31" using g by (simp add: geometry_ok_def)
  then have "length (m_Map m) < 2 ^ 31" by (metis of_nat_less_numeral_power_cancel_iff)
  with invariant_size_le_capacity[OF assms] show ?thesis by (simp add: m_EmptySymbol_def)
qed

lemma invariant_contains:
  assumes inv: "link_invariant m" and v: "is_key_valid m k"
  shows "contains m k = Inr (k \<in> fst ` set (m_Data m))"
proof -
  have g: "geometry_ok m" by (rule link_invariantD(1)[OF inv])
  let ?c = "resolve_spatial_key k (m_MapResolution m)"
  have c: "?c < length (m_Map m)" by (rule resolve_valid(2)[OF g v])
  have "(m_Map m ! ?c \<noteq> m_EmptySymbol) = (k \<in> fst ` set (m_Data m))"
  proof
    assume ne: "m_Map m ! ?c \<noteq> m_EmptySymbol"
    with link_invariantD(4)[OF inv c]
    have l: "m_Map m ! ?c < length (m_Data m)"
      and r: "resolve_spatial_key (fst (m_Data m ! (m_Map m ! ?c))) (m_MapResolution m) = ?c" by simp_all
    have "fst (m_Data m ! (m_Map m ! ?c)) = k"
      by (rule resolve_inj[OF g link_invariantD(2)[OF inv l] v r])
    then show "k \<in> fst ` set (m_Data m)" using l by (metis image_eqI nth_mem)
  next
    assume "k \<in> fst ` set (m_Data m)"
    then obtain i where i: "i < length (m_Data m)" "fst (m_Data m ! i) = k"
      by (auto simp: in_set_conv_nth)
    have "fetch_data_link m k = Inr i" using link_invariantD(3)[OF inv i(1)] i(2) by simp
    then have "m_Map m ! ?c = i" using fetch_valid[OF g v] by simp
    then show "m_Map m ! ?c \<noteq> m_EmptySymbol" using invariant_size_small[OF inv] i(1) by simp
  qed
  then show ?thesis using v by (simp add: contains_def fetch_valid[OF g v] is_data_link_empty_def)
qed









lemmas spatial_eval =
  two_entries_def empty_grid_def is_key_valid_def fetch_data_link_def store_data_link_def
  clear_data_link_def resolve_spatial_key_def index_2d_def size_t_of_int_def m_EmptySymbol_def
  is_data_link_empty_def contains_def at_key_def place_at_def emplace_at_def remove_def
  within_bounds_def static_cast_int_def static_cast_size_t_def truncate_toward_zero_def
  between_def simplify_key_def key_of_def place_def try_place_def emplace_def try_emplace_def
  size_of_def link_invariant_def geometry_ok_def

lemma two_entries_invariant: "link_invariant two_entries"
  by (simp add: spatial_eval)

lemma two_entries_reachable:
  "(case place_at empty_grid (0, 0) 10 of
      Inl e \<Rightarrow> Inl e
    | Inr (m, _) \<Rightarrow> place_at m (1, 1) 20) = Inr (two_entries, 1)"
  by (simp add: spatial_eval)

subsection \<open>Rescaling\<close>




lemma reinsert_geometry:
  "reinsert m old_data = Inr m' \<Longrightarrow>
     m_MapResolution m' = m_MapResolution m \<and> m_InputRegion m' = m_InputRegion m"
proof (induction m old_data rule: reinsert.induct)
  case (1 m)
  then show ?case by simp
next
  case (2 m key item old_data)
  show ?case
  proof (cases "is_key_valid m key")
    case False
    then show ?thesis using 2 by simp
  next
    case True
    with "2.prems" obtain m1 i where p: "place_at m key item = Inr (m1, i)"
      and r: "reinsert m1 old_data = Inr m'"
      by (auto split: sum.splits)
    have "m_MapResolution m1 = m_MapResolution m \<and> m_InputRegion m1 = m_InputRegion m"
      using p by (auto simp: place_at_def store_data_link_def split: if_splits sum.splits)
    then show ?thesis using "2.IH"(1)[OF True p refl r] by simp
  qed
qed

text \<open>
  Claim C8.  A call of \<^verbatim>\<open>rescale\<close> with the resolution and the input region that the
  map has already (they pass the assertions of the call) returns the map as it is: the
  key size, the links, the data array and its order are the same.  Hence a second call
  with the arguments of a first one changes nothing.
\<close>

theorem rescale_same_arguments:
  fixes m :: "'a SpatialMap"
  shows "(1 \<le> size_width (resolution m) \<and> 1 \<le> size_height (resolution m) \<and>
          size_width (resolution m) \<le> rect_width (input_region m) \<and>
          size_height (resolution m) \<le> rect_height (input_region m)
          \<longrightarrow> rescale m (resolution m) (input_region m) = Inr m) \<and>
         (\<forall>res region m'. rescale m res region = Inr m' \<longrightarrow> rescale m' res region = Inr m')"
proof (intro conjI impI allI)
  assume "1 \<le> size_width (resolution m) \<and> 1 \<le> size_height (resolution m) \<and>
          size_width (resolution m) \<le> rect_width (input_region m) \<and>
          size_height (resolution m) \<le> rect_height (input_region m)"
  then show "rescale m (resolution m) (input_region m) = Inr m"
    by (simp add: rescale_def resolution_def input_region_def)
next
  fix res region m'
  assume r: "rescale m res region = Inr m'"
  then have pre: "1 \<le> size_width res" "1 \<le> size_height res"
      "size_width res \<le> rect_width region" "size_height res \<le> rect_height region"
    by (auto simp: rescale_def split: if_splits)
  have "m_MapResolution m' = res \<and> m_InputRegion m' = region"
  proof (cases "res \<noteq> m_MapResolution m \<or> region \<noteq> m_InputRegion m")
    case False
    then show ?thesis using r pre by (simp add: rescale_def)
  next
    case True
    then obtain m0 where "reinsert m0 (m_Data m) = Inr m'" "m_MapResolution m0 = res"
      "m_InputRegion m0 = region"
      using r pre by (auto simp: rescale_def split: if_splits)
    then show ?thesis using reinsert_geometry by metis
  qed
  then show "rescale m' res region = Inr m'" using pre by (simp add: rescale_def)
qed


theorem rescale_same_arguments_witness:
  "rescale two_entries (resolution two_entries) (input_region two_entries) = Inr two_entries"
proof -
  have "1 \<le> size_width (resolution two_entries) \<and> 1 \<le> size_height (resolution two_entries) \<and>
        size_width (resolution two_entries) \<le> rect_width (input_region two_entries) \<and>
        size_height (resolution two_entries) \<le> rect_height (input_region two_entries)"
    by (simp add: resolution_def input_region_def two_entries_def)
  then show ?thesis using rescale_same_arguments[of two_entries] by blast
qed

subsection \<open>Clearing\<close>

text \<open>
  Claim C10.  After \<^verbatim>\<open>clear()\<close> the size is 0 and the map is empty; the resolution, the
  input region, the key size and the capacity are what they were; and, when the grid has
  the cells of its resolution, \<^verbatim>\<open>contains(k)\<close> is false for every valid key \<open>k\<close>.
\<close>

theorem clear_empties_map:
  fixes m :: "'a SpatialMap"
  shows "size_of (clear m) = 0 \<and> is_empty (clear m) \<and>
         resolution (clear m) = resolution m \<and> input_region (clear m) = input_region m \<and>
         key_size (clear m) = key_size m \<and> capacity (clear m) = capacity m \<and>
         (geometry_ok m \<longrightarrow> (\<forall>k. is_key_valid (clear m) k \<longrightarrow> contains (clear m) k = Inr False))"
proof -
  have "contains (clear m) k = Inr False" if g: "geometry_ok m" and v: "is_key_valid (clear m) k" for k
  proof -
    have v0: "is_key_valid m k" using v by (simp add: is_key_valid_def clear_def)
    have c: "resolve_spatial_key k (m_MapResolution m) < length (m_Map m)"
      by (rule resolve_valid(2)[OF g v0])
    then show ?thesis using v
      by (simp add: contains_def fetch_data_link_def clear_def is_data_link_empty_def)
  qed
  then show ?thesis
    by (simp add: size_of_def is_empty_def resolution_def input_region_def key_size_def
        capacity_def clear_def)
qed

theorem clear_empties_map_witness:
  "geometry_ok two_entries \<and> is_key_valid (clear two_entries) (1, 1) \<and>
   contains two_entries (1, 1) = Inr True \<and> contains (clear two_entries) (1, 1) = Inr False \<and>
   size_of (clear two_entries) = 0"
proof -
  have g: "geometry_ok two_entries" by (simp add: spatial_eval)
  have v: "is_key_valid (clear two_entries) (1, 1)" by (simp add: spatial_eval clear_def)
  have c: "contains two_entries (1, 1) = Inr True" by (simp add: spatial_eval)
  show ?thesis using g v c clear_empties_map[of two_entries] by blast
qed

subsection \<open>Insertion into an occupied cell\<close>

text \<open>
  On an occupied cell \<^verbatim>\<open>place_at\<close> and \<^verbatim>\<open>emplace_at\<close> put a new slot in front of the one
  the cell links to: the array grows by one, and the old slot and all later ones move up.
\<close>

lemma place_at_occupied_grows:
  assumes inv: "link_invariant m" and v: "is_key_valid m k" and c: "contains m k = Inr True"
  shows "\<exists>l < length (m_Data m).
           place_at m k item =
             Inr (m\<lparr>m_Data := take l (m_Data m) @ [(k, item)] @ drop l (m_Data m)\<rparr>, l) \<and>
           m_Data m ! l = (k, snd (m_Data m ! l))"
proof -
  have "k \<in> fst ` set (m_Data m)" using invariant_contains[OF inv v] c by simp
  then obtain l where l: "l < length (m_Data m)" "fst (m_Data m ! l) = k"
    by (auto simp: in_set_conv_nth)
  have f: "fetch_data_link m k = Inr l" using link_invariantD(3)[OF inv l(1)] l(2) by simp
  have ne: "l \<noteq> m_EmptySymbol" using invariant_size_small[OF inv] l(1) by simp
  have "place_at m k item =
      Inr (m\<lparr>m_Data := take l (m_Data m) @ [(k, item)] @ drop l (m_Data m)\<rparr>, l)"
    using v f ne l(1) by (simp add: place_at_def is_data_link_empty_def)
  moreover have "m_Data m ! l = (k, snd (m_Data m ! l))" using l(2) by (simp add: prod_eq_iff)
  ultimately show ?thesis using l(1) by blast
qed

text \<open>
  Claim C1, on the map with the values 10 in the cell \<open>(0, 0)\<close> and 20 in the cell
  \<open>(1, 1)\<close>.  \<^verbatim>\<open>place_at((0, 0), 30)\<close> returns a reference to the slot 0, which holds 30, but
  the data array has three slots afterwards: the old entry of the cell is still there, in
  slot 1, and the entry of the cell \<open>(1, 1)\<close> has moved to slot 2, while its link still
  says 1, so that \<^verbatim>\<open>at((1, 1))\<close> is 10.  \<^verbatim>\<open>emplace_at\<close> does the same.
\<close>

theorem place_at_occupied_inserts:
  "contains two_entries (0, 0) = Inr True \<and> size_of two_entries = 2 \<and>
   at_key two_entries (1, 1) = Inr 20 \<and>
   place_at two_entries (0, 0) 30 =
     Inr (two_entries\<lparr>m_Data := [((0, 0), 30), ((0, 0), 10), ((1, 1), 20)]\<rparr>, 0) \<and>
   emplace_at two_entries (0, 0) (\<lambda>args. args) 30 =
     Inr (two_entries\<lparr>m_Data := [((0, 0), 30), ((0, 0), 10), ((1, 1), 20)]\<rparr>, 0) \<and>
   size_of (two_entries\<lparr>m_Data := [((0, 0), 30), ((0, 0), 10), ((1, 1), 20)]\<rparr>) = 3 \<and>
   at_key (two_entries\<lparr>m_Data := [((0, 0), 30), ((0, 0), 10), ((1, 1), 20)]\<rparr>) (1, 1) = Inr 10"
  by (simp add: spatial_eval)

subsection \<open>Removal\<close>

text \<open>
  Claim C2, on the same map.  \<^verbatim>\<open>remove((0, 0))\<close> moves the last entry, of the cell
  \<open>(1, 1)\<close>, to slot 0, empties the link of the cell \<open>(0, 0)\<close> and shrinks the array to one
  slot.  The link of the cell \<open>(1, 1)\<close> is not written: it still says 1, which is outside
  of the array, so that the invariant is broken and \<^verbatim>\<open>at((1, 1))\<close> reads beyond the array.
\<close>

theorem remove_leaves_stale_link:
  "at_key two_entries (1, 1) = Inr 20 \<and>
   remove two_entries (0, 0) =
     Inr (two_entries\<lparr>m_Map := [m_EmptySymbol, m_EmptySymbol, m_EmptySymbol, 1],
                      m_Data := [((1, 1), 20)]\<rparr>) \<and>
   fetch_data_link (two_entries\<lparr>m_Map := [m_EmptySymbol, m_EmptySymbol, m_EmptySymbol, 1],
                                m_Data := [((1, 1), 20)]\<rparr>) (1, 1) = Inr 1 \<and>
   size_of (two_entries\<lparr>m_Map := [m_EmptySymbol, m_EmptySymbol, m_EmptySymbol, 1],
                        m_Data := [((1, 1), 20)]\<rparr>) = 1 \<and>
   at_key (two_entries\<lparr>m_Map := [m_EmptySymbol, m_EmptySymbol, m_EmptySymbol, 1],
                       m_Data := [((1, 1), 20)]\<rparr>) (1, 1) = Inl UndefinedBehaviour \<and>
   contains (two_entries\<lparr>m_Map := [m_EmptySymbol, m_EmptySymbol, m_EmptySymbol, 1],
                         m_Data := [((1, 1), 20)]\<rparr>) (0, 0) = Inr False \<and>
   \<not> link_invariant (two_entries\<lparr>m_Map := [m_EmptySymbol, m_EmptySymbol, m_EmptySymbol, 1],
                                 m_Data := [((1, 1), 20)]\<rparr>)"
  by (simp add: spatial_eval)

subsection \<open>Positions outside of the input region\<close>

text \<open>
  A position whose coordinates fit an \<^verbatim>\<open>int\<close> is within bounds exactly when the
  coordinates, truncated toward zero, lie in the region; and a position that is not within
  bounds leaves the map as it is.  So a position on or beyond the right or the bottom edge
  is turned down.
\<close>

lemma within_bounds_truncated:
  assumes "static_cast_int (fst pos) = Inr px" "static_cast_int (snd pos) = Inr py"
  shows "within_bounds m pos =
           Inr (rect_x (m_InputRegion m) \<le> px \<and>
                px \<le> rect_x (m_InputRegion m) + rect_width (m_InputRegion m) - 1 \<and>
                rect_y (m_InputRegion m) \<le> py \<and>
                py \<le> rect_y (m_InputRegion m) + rect_height (m_InputRegion m) - 1)"
  using assms by (auto simp: within_bounds_def between_def Let_def)

lemma try_place_not_within_bounds:
  "within_bounds m pos = Inr False \<Longrightarrow>
     try_place m pos item = Inr (m, False) \<and> try_emplace m pos make_item args = Inr (m, False)"
  by (simp add: try_place_def try_emplace_def)

lemma truncate_toward_zero_ge:
  assumes "of_int n \<le> q"
  shows "n \<le> truncate_toward_zero q"
proof (cases "0 \<le> q")
  case True
  then show ?thesis using assms by (simp add: truncate_toward_zero_def le_floor_iff)
next
  case False
  have "of_int n \<le> (of_int \<lceil>q\<rceil> :: rat)" using assms le_of_int_ceiling[of q] by linarith
  then show ?thesis using False by (simp add: truncate_toward_zero_def)
qed

lemma try_place_right_or_bottom:
  assumes "static_cast_int (fst pos) = Inr px" "static_cast_int (snd pos) = Inr py"
    and "of_int (rect_x (m_InputRegion m) + rect_width (m_InputRegion m)) \<le> fst pos \<or>
         of_int (rect_y (m_InputRegion m) + rect_height (m_InputRegion m)) \<le> snd pos"
  shows "try_place m pos item = Inr (m, False)"
proof -
  have px: "px = truncate_toward_zero (fst pos)" and py: "py = truncate_toward_zero (snd pos)"
    using assms(1,2) by (auto simp: static_cast_int_def Let_def split: if_splits)
  have "rect_x (m_InputRegion m) + rect_width (m_InputRegion m) \<le> px \<or>
        rect_y (m_InputRegion m) + rect_height (m_InputRegion m) \<le> py"
    using assms(3) truncate_toward_zero_ge px py by blast
  then have "within_bounds m pos = Inr False"
    unfolding within_bounds_truncated[OF assms(1,2), of m] by auto
  then show ?thesis by (simp add: try_place_def)
qed

text \<open>
  Claim C9, on the empty grid over the region from 0 to 4.  The position \<open>(-1/2, 0)\<close> is
  left of the region.  Its first coordinate is cast to \<^verbatim>\<open>int\<close>, which truncates toward
  zero and gives 0: \<^verbatim>\<open>within_bounds\<close> is true, and \<^verbatim>\<open>try_place\<close> and \<^verbatim>\<open>try_emplace\<close> store
  the value in the cell \<open>(0, 0)\<close> and return true.
\<close>

theorem try_place_left_of_region:
  "(- 1 / 2 :: rat) < of_int (rect_x (input_region empty_grid)) \<and>
   within_bounds empty_grid (- 1 / 2, 0) = Inr True \<and>
   try_place empty_grid (- 1 / 2, 0) 5 =
     Inr (empty_grid\<lparr>m_Map := [0, m_EmptySymbol, m_EmptySymbol, m_EmptySymbol],
                     m_Data := [((0, 0), 5)]\<rparr>, True) \<and>
   try_emplace empty_grid (- 1 / 2, 0) (\<lambda>args. args) 5 =
     Inr (empty_grid\<lparr>m_Map := [0, m_EmptySymbol, m_EmptySymbol, m_EmptySymbol],
                     m_Data := [((0, 0), 5)]\<rparr>, True)"
  by (simp add: spatial_eval input_region_def)

subsection \<open>Distribution quality\<close>
















section \<open>Properties of the stabilisation filter\<close>

subsection \<open>The loop counter of the crop-enclosure search\<close>

lemmas double_eval = double_div_def double_add_def round_to_double_def double_le_def
  max_t_def max_iterations_def double_of_int_def bit_length.simps Let_def

lemma step_value: "step = (5764607523034235, - 59)"
  by (simp add: step_def double_eval)

lemma max_t_value: "max_t = (4503599627370496, - 52)"
  by (simp add: double_eval)

lemma t_after_Suc: "t_after (Suc n) t = t_after n (double_add t step)"
  by (subst t_after.simps) simp

lemma t_after_0: "t_after 0 t = t"
  by (subst t_after.simps) simp


lemma t_99: "t_after 99 step = (4503599627370499, - 52)"
  by (simp add: t_after.simps step_value double_eval)

lemma t_98: "t_after 98 step = (8917127262193588, - 53)"
  by (simp add: t_after.simps step_value double_eval)

lemma t_99_beyond: "\<not> double_le (t_after 99 step) max_t"
  by (simp add: t_99 double_eval)



lemma enclose_crop_enclosed:
  "encloses ext (BoundingBox ext (image_size ext img) transform) (m_CropRegion s)
   \<Longrightarrow> enclose_crop ext s img transform = Some transform"
  unfolding enclose_crop_def by (subst enclose_loop.simps) simp


lemma double_value_numeral: "double_value (m, - numeral n) = of_int m / 2 ^ (numeral n)"
  by (simp only: double_value_def fst_conv snd_conv power_int_minus power_int_numeral divide_inverse)

lemma t_98_value: "double_value (t_after 98 step) = 2229281815548397 / 2251799813685248"
  by (simp add: t_98 double_value_numeral)

lemma t_99_value: "double_value (t_after 99 step) = 1 + 3 / 2 ^ 52"
  by (simp add: t_99 double_value_numeral)

text \<open>
  Two sums as the hardware gives them: 0.1 + 0.2 is 0.30000000000000004, and
  \<open>2 ^ 53 + 1\<close>, half way between two doubles, is rounded to the even one.
\<close>

lemma double_add_examples:
  "double_add (7205759403792794, - 56) (7205759403792794, - 55) = (5404319552844596, - 54) \<and>
   double_value (5404319552844596, - 54) =
     3000000000000000444089209850062616169452667236328125 / 10 ^ 52 \<and>
   double_add (4503599627370496, 1) (4503599627370496, - 52) = (4503599627370496, 1)"
  by (simp add: double_eval double_value_numeral)

text \<open>The step is the double nearest to 1/100: half a unit of its last place is \<open>1 / 2 ^ 60\<close>.\<close>

lemma step_nearest:
  "double_value step = 5764607523034235 / 2 ^ 59 \<and> \<bar>double_value step - 1 / 100\<bar> \<le> 1 / 2 ^ 60 \<and>
   double_value max_t = 1"
  by (simp add: step_value max_t_value double_value_numeral)

lemma fractions_within_99: "fractions_within 99 step"
  by (simp add: fractions_within.simps step_value double_eval)

text \<open>
  When no bounding box encloses the crop, the loop runs while \<open>t\<close> passes the test and
  returns the interpolation at the last value of \<open>t\<close> that did.
\<close>

lemma enclose_loop_never:
  assumes "\<forall>bounds. \<not> encloses ext bounds crop"
    and "fractions_within (Suc n) t" "\<not> double_le (t_after (Suc n) t) max_t"
  shows "enclose_loop ext crop transform t reduced bounds =
           Some (lerp ext transform (Identity ext) (t_after n t))"
  using assms(2,3)
proof (induction n arbitrary: t reduced bounds)
  case 0
  have le: "double_le t max_t" using "0.prems"(1) by (subst (asm) fractions_within.simps) simp
  have gt: "\<not> double_le (double_add t step) max_t"
    using "0.prems"(2) by (simp add: t_after_Suc t_after_0)
  have "enclose_loop ext crop transform (double_add t step)
          (lerp ext transform (Identity ext) t)
          (bounds_transform ext bounds (lerp ext transform (Identity ext) t)) =
        Some (lerp ext transform (Identity ext) t)"
    using gt by (subst enclose_loop.simps) simp
  then show ?case using le assms(1) by (subst enclose_loop.simps) (simp add: t_after_0)
next
  case (Suc n)
  have le: "double_le t max_t" and rest: "fractions_within (Suc n) (double_add t step)"
    using Suc.prems(1) by (subst (asm) fractions_within.simps, simp)+
  have gt: "\<not> double_le (t_after (Suc n) (double_add t step)) max_t"
    using Suc.prems(2) by (simp add: t_after_Suc)
  have "enclose_loop ext crop transform (double_add t step)
          (lerp ext transform (Identity ext) t)
          (bounds_transform ext bounds (lerp ext transform (Identity ext) t)) =
        Some (lerp ext transform (Identity ext) (t_after n (double_add t step)))"
    by (rule Suc.IH[OF rest gt])
  then show ?case using le assms(1) by (subst enclose_loop.simps) (simp add: t_after_Suc)
qed

lemma enclose_crop_never:
  assumes "\<forall>bounds. \<not> encloses ext bounds (m_CropRegion s)"
  shows "enclose_crop ext s img transform =
           Some (lerp ext transform (Identity ext) (8917127262193588, - 53))"
  using enclose_loop_never[OF assms, of 98 step transform transform] fractions_within_99 t_99_beyond
  by (simp add: enclose_crop_def t_98)

text \<open>
  Claim C5.  The search ends for every transform, and it returns the transform as it is
  when the bounding box of the frame encloses the crop at the start (the two lemmas
  \<open>enclose_crop_total\<close> and \<open>enclose_crop_enclosed\<close>).  But the loop runs 99 times and
  not 100: the step is the double nearest to 1/100, the sum of 100 steps is
  \<open>1 + 3 / 2 ^ 52\<close>, beyond \<^verbatim>\<open>max_t\<close>, and the last fraction the loop interpolates at is
  \<open>2229281815548397 / 2 ^ 51\<close>, about 0.99.  On a frame of 100 pixels with the crop from 5
  to 95, the shift by 1000000 pixels never encloses the crop; the search returns the
  shift by about 10000 pixels, which does not enclose the crop, and not the identity,
  which does.
\<close>

theorem enclose_crop_stops_short:
  "enclose_crop shift_externals shift_filter () 1000000 =
     Some (351843720888296875 / 35184372088832) \<and>
   lerp shift_externals 1000000 (Identity shift_externals) max_t = Identity shift_externals \<and>
   Identity shift_externals = 0 \<and>
   \<not> encloses shift_externals
        (BoundingBox shift_externals (image_size shift_externals ())
           (351843720888296875 / 35184372088832))
        (m_CropRegion shift_filter) \<and>
   encloses shift_externals
     (BoundingBox shift_externals (image_size shift_externals ()) (Identity shift_externals))
     (m_CropRegion shift_filter) \<and>
   enclose_crop shift_externals shift_filter () 3 = Some 3"
  by (simp add: enclose_crop_def shift_externals_def shift_filter_def enclose_loop.simps
      step_value double_value_numeral double_eval)

subsection \<open>The buffers\<close>

lemma advance_window [simp]: "window_size (advance b x) = window_size b"
  by (simp add: advance_def window_size_def)

lemma advance_elements:
  assumes "1 \<le> window_size b" "elements b \<le> window_size b"
  shows "elements (advance b x) = min (elements b + 1) (window_size b)"
proof (cases "full b")
  case True
  then have "sb_elements b \<noteq> []" using assms(1) by (auto simp: full_def elements_def)
  then show ?thesis using True assms(1) by (simp add: advance_def elements_def full_def)
next
  case False
  then show ?thesis using assms(2) by (auto simp: advance_def elements_def full_def)
qed

lemma store_newest_advance: "store_newest (advance b x) y = advance b y"
  by (simp add: store_newest_def advance_def)

lemma uint32_minus_small:
  assumes "1 \<le> r" "r < 2 ^ 32"
  shows "uint32_minus r 1 = r - 1" and "uint32_minus r (Suc 0) = r - Suc 0"
proof -
  obtain p where p: "r = Suc p" using assms(1) by (cases r) simp_all
  have "(r + 2 ^ 32 - 1 mod 2 ^ 32) mod 2 ^ 32 = (p + 2 ^ 32) mod 2 ^ 32" by (simp add: p)
  also have "\<dots> = p" using assms(2) by (simp add: p)
  finally show "uint32_minus r 1 = r - 1" by (simp add: uint32_minus_def p)
  then show "uint32_minus r (Suc 0) = r - Suc 0" by simp
qed

text \<open>The loop of \<^verbatim>\<open>reset_buffers\<close> fills the trajectory up to \<open>r - 1\<close> elements.\<close>

lemma seed_trajectory_fills:
  assumes "1 \<le> r" "r < 2 ^ 32" "r - 1 \<le> window_size trajectory"
    "1 \<le> elements trajectory" "elements trajectory \<le> r - 1"
  shows "\<exists>seeded. seed_trajectory ext r trajectory = Some (Inr seeded) \<and>
           window_size seeded = window_size trajectory \<and> elements seeded = r - 1"
  using assms(3-5)
proof (induction "r - 1 - elements trajectory" arbitrary: trajectory)
  case 0
  then have "elements trajectory = r - 1" by simp
  then show ?case
    using assms(1,2) by (subst seed_trajectory.simps) (simp add: uint32_minus_small)
next
  case (Suc d)
  then have lt: "elements trajectory < r - 1" by simp
  have "sb_elements trajectory \<noteq> []" using Suc.prems(2) by (auto simp: elements_def)
  then have n: "newest trajectory = Inr (last (sb_elements trajectory))" by (simp add: newest_def)
  let ?next = "advance trajectory (vector_plus ext (last (sb_elements trajectory)) (vector_of ext (Identity ext)))"
  have w: "1 \<le> window_size trajectory" using lt Suc.prems(1) by simp
  have e: "elements ?next = elements trajectory + 1"
    using advance_elements[OF w, of _] lt Suc.prems(1) by simp
  have "\<exists>seeded. seed_trajectory ext r ?next = Some (Inr seeded) \<and>
           window_size seeded = window_size ?next \<and> elements seeded = r - 1"
    using Suc.hyps(2) Suc.prems(1) lt e by (intro Suc.hyps(1)) simp_all
  then show ?case
    using lt n assms(1,2) by (subst seed_trajectory.simps) (simp add: uint32_minus_small)
qed


lemma clear_buffer_simps [simp]:
  "window_size (clear_buffer b) = window_size b" "elements (clear_buffer b) = 0"
  by (simp_all add: clear_buffer_def window_size_def elements_def)

lemma resize_window [simp]: "window_size (resize b n) = n"
  by (simp add: resize_def window_size_def)

lemma radius_bounds:
  assumes "SMOOTHING_RADIUS_MIN \<le> r" "r \<le> SMOOTHING_RADIUS_MAX"
  shows "2 \<le> r" "r \<le> 30" "uint32_plus r 2 = r + 2" "uint32_plus (uint32_times 2 r) 1 = 2 * r + 1"
  using assms
  by (simp_all add: SMOOTHING_RADIUS_MIN_def SMOOTHING_RADIUS_MAX_def uint32_plus_def uint32_times_def)

lemma prepare_buffers_result:
  assumes "SMOOTHING_RADIUS_MIN \<le> r" "r \<le> SMOOTHING_RADIUS_MAX" "even r"
  shows "\<exists>s0. prepare_buffers ext s r = Some (Inr s0) \<and>
           window_size (m_FrameQueue s0) = r + 2 \<and> elements (m_FrameQueue s0) = 0 \<and>
           window_size (m_Trajectory s0) = 2 * r + 1 \<and> elements (m_Trajectory s0) = r - 1"
proof -
  note b = radius_bounds[OF assms(1,2)]
  define s1 where "s1 = s\<lparr>m_SmoothingRadius := r,
        m_FrameQueue := resize (m_FrameQueue s) (r + 2),
        m_Trajectory := resize (m_Trajectory s) (2 * r + 1),
        m_Filter := fold (\<lambda>i filter. advance filter
            (getGaussianKernel ext (2 * r + 1)
               (double_div (double_of_int (int (2 * r + 1))) (double_of_int 6)) i))
          [0..<2 * r + 1] (clear_buffer (resize (m_Filter s) (2 * r + 1)))\<rparr>"
  have p: "prepare_buffers ext s r = reset_buffers ext s1"
    unfolding prepare_buffers_def Let_def b(3) b(4) s1_def using assms(1,3) by auto
  let ?start = "advance (clear_buffer (m_Trajectory s1)) (vector_of ext (Identity ext))"
  have w: "window_size ?start = 2 * r + 1" by (simp add: s1_def)
  have e: "elements ?start = 1"
    using advance_elements[of "clear_buffer (m_Trajectory s1)" "vector_of ext (Identity ext)"]
    by (simp add: s1_def)
  have "\<exists>seeded. seed_trajectory ext r ?start = Some (Inr seeded) \<and>
           window_size seeded = window_size ?start \<and> elements seeded = r - 1"
    using b(1,2) w e by (intro seed_trajectory_fills) simp_all
  then obtain seeded where seeded: "seed_trajectory ext r ?start = Some (Inr seeded)"
    "window_size seeded = 2 * r + 1" "elements seeded = r - 1"
    using w by auto
  have gt: "window_size (m_Trajectory s1) > window_size (m_FrameQueue s1)"
    using b(1) by (simp add: s1_def)
  have r1: "m_SmoothingRadius s1 = r" by (simp add: s1_def)
  have "reset_buffers ext s1 =
      Some (Inr (s1\<lparr>m_FrameQueue := clear_buffer (m_FrameQueue s1), m_Trajectory := seeded\<rparr>))"
    using gt seeded(1) by (simp add: reset_buffers_def r1)
  then show ?thesis using p seeded(2,3) by (simp add: s1_def)
qed

lemma frame_advances_buffers:
  assumes "1 \<le> window_size (m_FrameQueue s)" "elements (m_FrameQueue s) \<le> window_size (m_FrameQueue s)"
    "1 \<le> window_size (m_Trajectory s)" "elements (m_Trajectory s) \<le> window_size (m_Trajectory s)"
  shows "window_size (m_FrameQueue (frame_advances s pushes)) = window_size (m_FrameQueue s) \<and>
         window_size (m_Trajectory (frame_advances s pushes)) = window_size (m_Trajectory s) \<and>
         elements (m_FrameQueue (frame_advances s pushes)) =
           min (elements (m_FrameQueue s) + length pushes) (window_size (m_FrameQueue s)) \<and>
         elements (m_Trajectory (frame_advances s pushes)) =
           min (elements (m_Trajectory s) + length pushes) (window_size (m_Trajectory s))"
  using assms
proof (induction pushes arbitrary: s)
  case Nil
  then show ?case by simp
next
  case (Cons pushed pushes)
  let ?s = "frame_advance s pushed"
  have q: "elements (m_FrameQueue ?s) = min (elements (m_FrameQueue s) + 1) (window_size (m_FrameQueue s))"
    using advance_elements[OF Cons.prems(1,2)] by (simp add: frame_advance_def)
  have t: "elements (m_Trajectory ?s) = min (elements (m_Trajectory s) + 1) (window_size (m_Trajectory s))"
    using advance_elements[OF Cons.prems(3,4)] by (simp add: frame_advance_def)
  have w: "window_size (m_FrameQueue ?s) = window_size (m_FrameQueue s)"
    "window_size (m_Trajectory ?s) = window_size (m_Trajectory s)"
    by (simp_all add: frame_advance_def)
  have "window_size (m_FrameQueue (frame_advances ?s pushes)) = window_size (m_FrameQueue ?s) \<and>
         window_size (m_Trajectory (frame_advances ?s pushes)) = window_size (m_Trajectory ?s) \<and>
         elements (m_FrameQueue (frame_advances ?s pushes)) =
           min (elements (m_FrameQueue ?s) + length pushes) (window_size (m_FrameQueue ?s)) \<and>
         elements (m_Trajectory (frame_advances ?s pushes)) =
           min (elements (m_Trajectory ?s) + length pushes) (window_size (m_Trajectory ?s))"
    using Cons.prems by (intro Cons.IH) (simp_all add: w q t)
  then show ?case using Cons.prems(2,4) by (simp add: w q t min_def)
qed

text \<open>
  Claim C4.  For an even smoothing radius \<open>r\<close> between the bounds of the setting,
  \<^verbatim>\<open>prepare_buffers(r)\<close> succeeds and leaves an empty frame queue of window size \<open>r + 2\<close> and
  a trajectory of window size \<open>2 * r + 1\<close> with \<open>r - 1\<close> elements.  After any number of
  frame advances from there, each buffer is full exactly when the number is \<open>r + 2\<close> at
  least, and that is what \<^verbatim>\<open>stabilisation_ready()\<close> returns: false up to \<open>r + 1\<close> advances,
  true from the advance \<open>r + 2\<close> on, on which both buffers become full.
\<close>

theorem stabilisation_ready_after_prepare:
  assumes "SMOOTHING_RADIUS_MIN \<le> r" "r \<le> SMOOTHING_RADIUS_MAX" "even r"
  shows "\<exists>s0. prepare_buffers ext s r = Some (Inr s0) \<and>
           window_size (m_FrameQueue s0) = r + 2 \<and> window_size (m_Trajectory s0) = 2 * r + 1 \<and>
           elements (m_FrameQueue s0) = 0 \<and> elements (m_Trajectory s0) = r - 1 \<and>
           (\<forall>pushes.
              full (m_FrameQueue (frame_advances s0 pushes)) = (r + 2 \<le> length pushes) \<and>
              full (m_Trajectory (frame_advances s0 pushes)) = (r + 2 \<le> length pushes) \<and>
              stabilisation_ready (frame_advances s0 pushes) = Inr (r + 2 \<le> length pushes))"
proof -
  note b = radius_bounds[OF assms(1,2)]
  obtain s0 where s0: "prepare_buffers ext s r = Some (Inr s0)"
    "window_size (m_FrameQueue s0) = r + 2" "elements (m_FrameQueue s0) = 0"
    "window_size (m_Trajectory s0) = 2 * r + 1" "elements (m_Trajectory s0) = r - 1"
    using prepare_buffers_result[OF assms] by blast
  have "full (m_FrameQueue (frame_advances s0 pushes)) = (r + 2 \<le> length pushes) \<and>
        full (m_Trajectory (frame_advances s0 pushes)) = (r + 2 \<le> length pushes) \<and>
        stabilisation_ready (frame_advances s0 pushes) = Inr (r + 2 \<le> length pushes)" for pushes
  proof -
    have "window_size (m_FrameQueue (frame_advances s0 pushes)) = window_size (m_FrameQueue s0) \<and>
         window_size (m_Trajectory (frame_advances s0 pushes)) = window_size (m_Trajectory s0) \<and>
         elements (m_FrameQueue (frame_advances s0 pushes)) =
           min (elements (m_FrameQueue s0) + length pushes) (window_size (m_FrameQueue s0)) \<and>
         elements (m_Trajectory (frame_advances s0 pushes)) =
           min (elements (m_Trajectory s0) + length pushes) (window_size (m_Trajectory s0))"
      using b(1) by (intro frame_advances_buffers) (simp_all add: s0)
    then have q: "full (m_FrameQueue (frame_advances s0 pushes)) = (r + 2 \<le> length pushes)"
      and t: "full (m_Trajectory (frame_advances s0 pushes)) = (r + 2 \<le> length pushes)"
      using b(1) by (auto simp: full_def s0)
    then show ?thesis by (simp add: stabilisation_ready_def)
  qed
  then show ?thesis using s0 by blast
qed

theorem stabilisation_ready_after_prepare_witness:
  "\<exists>s0. prepare_buffers shift_externals shift_filter 2 = Some (Inr s0) \<and>
         elements (m_Trajectory s0) = 1 \<and>
         stabilisation_ready
           (frame_advances s0
              (replicate 3 (\<lparr>buffer_frame = (), buffer_output = 0\<rparr>,
                            \<lparr>displacement = 0, velocity = 0\<rparr>))) = Inr False \<and>
         stabilisation_ready
           (frame_advances s0
              (replicate 4 (\<lparr>buffer_frame = (), buffer_output = 0\<rparr>,
                            \<lparr>displacement = 0, velocity = 0\<rparr>))) = Inr True"
proof -
  let ?pushed = "(\<lparr>buffer_frame = (), buffer_output = 0 :: nat\<rparr>,
                  \<lparr>displacement = 0 :: rat, velocity = 0 :: rat\<rparr>)"
  have r: "SMOOTHING_RADIUS_MIN \<le> (2::nat)" "(2::nat) \<le> SMOOTHING_RADIUS_MAX" "even (2::nat)"
    by (simp_all add: SMOOTHING_RADIUS_MIN_def SMOOTHING_RADIUS_MAX_def)
  from stabilisation_ready_after_prepare[OF r, of shift_externals shift_filter]
  obtain s0 where s0: "prepare_buffers shift_externals shift_filter 2 = Some (Inr s0)"
    "elements (m_Trajectory s0) = 2 - 1"
    "\<And>pushes. stabilisation_ready (frame_advances s0 pushes) = Inr (2 + 2 \<le> length pushes)"
    by blast
  have "stabilisation_ready (frame_advances s0 (replicate 3 ?pushed)) = Inr False"
    "stabilisation_ready (frame_advances s0 (replicate 4 ?pushed)) = Inr True"
    by (simp_all add: s0(3))
  then show ?thesis using s0(1,2) by auto
qed

subsection \<open>Processing frames\<close>




lemma stabilise_output:
  assumes "stabilise ext s frame_time_ns = Some (Inr (s', returned))"
  shows "m_FrameQueue s' = m_FrameQueue s \<and> m_Trajectory s' = m_Trajectory s \<and>
         (\<exists>buffer warp. oldest (m_FrameQueue s) = Inr buffer \<and>
            returned = Some (buffer_output buffer,
                             if m_TestMode s
                             then draw_test_mode ext (s\<lparr>m_WarpFrame := warpAffine ext (buffer_frame buffer) warp\<rparr>)
                                    (warpAffine ext (buffer_frame buffer) warp) frame_time_ns
                             else warpAffine ext (buffer_frame buffer) warp))"
  using assms unfolding stabilise_def Let_def
  by (auto split: sum.splits option.splits if_splits)


text \<open>The buffers after a call of \<^verbatim>\<open>process\<close> are those after one frame advance.\<close>

lemma process_advances:
  assumes "process ext s obs_frame frame_time_ns = Some (Inr (s', returned))"
  shows "\<exists>pushed. m_FrameQueue s' = m_FrameQueue (frame_advance s pushed) \<and>
                  m_Trajectory s' = m_Trajectory (frame_advance s pushed)"
proof -
  define pushed :: "('a, 'b) FrameBuffer"
    where "pushed = \<lparr>buffer_frame = image_of_frame ext obs_frame, buffer_output = obs_frame\<rparr>"
  define advanced where "advanced = advance (m_Trajectory s) (vector_of ext (Identity ext))"
  define tracked
    where "tracked = track ext (m_FrameTracker s) (extractChannel ext (image_of_frame ext obs_frame))"
  from assms obtain before where b: "previous advanced = Inr before"
    unfolding process_def Let_def advanced_def by (cases "previous advanced") (auto simp: advanced_def)
  define motion :: "'c FrameVector"
    where "motion = \<lparr>displacement = transform_plus ext (displacement before) (fst tracked),
                     velocity = fst tracked\<rparr>"
  define s1 where "s1 = s\<lparr>m_TrackingFrame := extractChannel ext (image_of_frame ext obs_frame),
                          m_FrameTracker := snd tracked,
                          m_FrameQueue := advance (m_FrameQueue s) pushed,
                          m_Trajectory := store_newest advanced motion\<rparr>"
  have rest: "(case stabilisation_ready s1 of
                 Inl e \<Rightarrow> Some (Inl e)
               | Inr ready \<Rightarrow> if ready then stabilise ext s1 frame_time_ns
                              else Some (Inr (s1, None))) = Some (Inr (s', returned))"
    using assms b unfolding process_def Let_def s1_def motion_def tracked_def advanced_def pushed_def
    by simp
  then obtain ready where
    branch: "(if ready then stabilise ext s1 frame_time_ns else Some (Inr (s1, None))) =
             Some (Inr (s', returned))"
    by (cases "stabilisation_ready s1") auto
  have same: "m_FrameQueue s' = m_FrameQueue s1 \<and> m_Trajectory s' = m_Trajectory s1"
  proof (cases ready)
    case False
    then show ?thesis using branch by simp
  next
    case True
    then have "stabilise ext s1 frame_time_ns = Some (Inr (s', returned))" using branch by simp
    from stabilise_output[OF this] show ?thesis by simp
  qed
  have "m_FrameQueue s' = m_FrameQueue (frame_advance s (pushed, motion)) \<and>
        m_Trajectory s' = m_Trajectory (frame_advance s (pushed, motion))"
    using same by (simp add: s1_def advanced_def frame_advance_def store_newest_advance)
  then show ?thesis by blast
qed



end
